theory Spec2Isabelle
  imports Complex_Main
begin

section \<open>Floating-point values as numpy sees them\<close>

text \<open>
  A pixel is an IEEE-754 double. The special values are kept apart, with the behaviour
  numpy gives them: \<open>NaN\<close> (the "invalid" marker), the two infinities, and the finite
  values. Finite arithmetic is idealised: a finite value is a real number, so rounding
  and overflow of finite results are not represented, and the two zeros are one value.
\<close>

datatype fl = NaN | NInf | Fin real | PInf

fun isnan :: "fl \<Rightarrow> bool" where
  "isnan NaN = True"
| "isnan _ = False"

fun isfinite :: "fl \<Rightarrow> bool" where
  "isfinite (Fin _) = True"
| "isfinite _ = False"

text \<open>\<^verbatim>\<open>x >= t\<close>: every comparison with NaN is false.\<close>

fun fl_ge :: "fl \<Rightarrow> fl \<Rightarrow> bool" where
  "fl_ge NaN _ = False"
| "fl_ge _ NaN = False"
| "fl_ge PInf _ = True"
| "fl_ge _ NInf = True"
| "fl_ge NInf _ = False"
| "fl_ge _ PInf = False"
| "fl_ge (Fin a) (Fin b) = (b \<le> a)"

text \<open>\<^verbatim>\<open>x < t\<close>.\<close>

fun fl_lt :: "fl \<Rightarrow> fl \<Rightarrow> bool" where
  "fl_lt NaN _ = False"
| "fl_lt _ NaN = False"
| "fl_lt PInf _ = False"
| "fl_lt _ NInf = False"
| "fl_lt NInf _ = True"
| "fl_lt _ PInf = True"
| "fl_lt (Fin a) (Fin b) = (a < b)"

fun fl_neg :: "fl \<Rightarrow> fl" where
  "fl_neg NaN = NaN"
| "fl_neg NInf = PInf"
| "fl_neg PInf = NInf"
| "fl_neg (Fin a) = Fin (- a)"

text \<open>\<^verbatim>\<open>x + y\<close>: the sum of opposite infinities is NaN.\<close>

fun fl_add :: "fl \<Rightarrow> fl \<Rightarrow> fl" where
  "fl_add NaN _ = NaN"
| "fl_add _ NaN = NaN"
| "fl_add PInf NInf = NaN"
| "fl_add NInf PInf = NaN"
| "fl_add PInf _ = PInf"
| "fl_add _ PInf = PInf"
| "fl_add NInf _ = NInf"
| "fl_add _ NInf = NInf"
| "fl_add (Fin a) (Fin b) = Fin (a + b)"

definition fl_sub :: "fl \<Rightarrow> fl \<Rightarrow> fl" where
  "fl_sub x y = fl_add x (fl_neg y)"

definition inf_of_sign :: "real \<Rightarrow> fl" where
  "inf_of_sign s = (if s = 0 then NaN else if 0 < s then PInf else NInf)"

text \<open>\<^verbatim>\<open>x * y\<close>: an infinity times zero is NaN, NaN times anything is NaN.\<close>

fun fl_mul :: "fl \<Rightarrow> fl \<Rightarrow> fl" where
  "fl_mul NaN _ = NaN"
| "fl_mul _ NaN = NaN"
| "fl_mul (Fin a) (Fin b) = Fin (a * b)"
| "fl_mul PInf (Fin b) = inf_of_sign b"
| "fl_mul NInf (Fin b) = inf_of_sign (- b)"
| "fl_mul (Fin a) PInf = inf_of_sign a"
| "fl_mul (Fin a) NInf = inf_of_sign (- a)"
| "fl_mul PInf PInf = PInf"
| "fl_mul NInf NInf = PInf"
| "fl_mul PInf NInf = NInf"
| "fl_mul NInf PInf = NInf"

text \<open>A boolean mask entering a float product is cast to 1.0 or 0.0.\<close>

definition of_mask :: "bool \<Rightarrow> fl" where
  "of_mask b = Fin (if b then 1 else 0)"

text \<open>\<^verbatim>\<open>np.log10\<close>: NaN below zero, minus infinity at zero.\<close>

fun np_log10 :: "fl \<Rightarrow> fl" where
  "np_log10 NaN = NaN"
| "np_log10 NInf = NaN"
| "np_log10 PInf = PInf"
| "np_log10 (Fin a) = (if a < 0 then NaN else if a = 0 then NInf else Fin (log 10 a))"

text \<open>\<^verbatim>\<open>np.sqrt\<close>: NaN below zero.\<close>

fun np_sqrt :: "fl \<Rightarrow> fl" where
  "np_sqrt NaN = NaN"
| "np_sqrt NInf = NaN"
| "np_sqrt PInf = PInf"
| "np_sqrt (Fin a) = (if a < 0 then NaN else Fin (sqrt a))"

text \<open>\<^verbatim>\<open>np.power(b, x)\<close> for a constant base \<open>b > 1\<close> (the code uses 10. and 2.).\<close>

fun np_power :: "real \<Rightarrow> fl \<Rightarrow> fl" where
  "np_power b NaN = NaN"
| "np_power b NInf = Fin 0"
| "np_power b PInf = PInf"
| "np_power b (Fin a) = Fin (b powr a)"

section \<open>Arrays\<close>

text \<open>
  A numpy array is its shape and its elements in row-major order. An array is
  well formed when the number of elements is the product of the shape.
\<close>

record 'a ndarray =
  shape :: "nat list"
  elems :: "'a list"

definition wf_ndarray :: "'a ndarray \<Rightarrow> bool" where
  "wf_ndarray a \<longleftrightarrow> length (elems a) = prod_list (shape a)"

definition ndim :: "'a ndarray \<Rightarrow> nat" where
  "ndim a = length (shape a)"

text \<open>\<^verbatim>\<open>img >= t\<close> with a scalar \<open>t\<close>.\<close>

definition nd_ge :: "fl ndarray \<Rightarrow> fl \<Rightarrow> bool ndarray" where
  "nd_ge img t = \<lparr>shape = shape img, elems = map (\<lambda>x. fl_ge x t) (elems img)\<rparr>"

text \<open>\<^verbatim>\<open>img * mask\<close> for a float array and a boolean array of the same shape.\<close>

definition nd_mul_mask :: "fl ndarray \<Rightarrow> bool ndarray \<Rightarrow> fl ndarray" where
  "nd_mul_mask img m =
     \<lparr>shape = shape img, elems = map2 fl_mul (elems img) (map of_mask (elems m))\<rparr>"

text \<open>\<^verbatim>\<open>a & b\<close> for two boolean arrays of the same shape.\<close>

definition nd_and :: "bool ndarray \<Rightarrow> bool ndarray \<Rightarrow> bool ndarray" where
  "nd_and a b = \<lparr>shape = shape a, elems = map2 (\<and>) (elems a) (elems b)\<rparr>"

section \<open>Errors\<close>

datatype error =
    WrongDimensionError
  | IndexError
  | ValueError
  | SaveFailed
  | LoadFailed
  | FileNotFoundError

section \<open>Tailcut\<close>

text \<open>
  The four in-place slice updates of \<^verbatim>\<open>Tailcut.clean_image\<close> act along one axis of
  the flat element list. For an axis of length \<open>len\<close> whose consecutive positions are
  \<open>stride\<close> elements apart, the coordinate of the flat position \<open>p\<close> along that axis is
  \<open>(p div stride) mod len\<close>.

  \<^verbatim>\<open>d[:-1] |= s[1:]\<close> along the axis: every position but the last takes in its
  successor in \<open>s\<close>. The right-hand side is read as it was before the update (numpy makes
  a copy when the two slices overlap in memory).
\<close>

definition ior_from_next :: "nat \<Rightarrow> nat \<Rightarrow> bool list \<Rightarrow> bool list \<Rightarrow> bool list" where
  "ior_from_next stride len d s =
     map (\<lambda>p. d ! p \<or> (Suc ((p div stride) mod len) < len \<and> s ! (p + stride)))
       [0..<length d]"

text \<open>\<^verbatim>\<open>d[1:] |= s[:-1]\<close> along the axis: every position but the first takes in its
  predecessor in \<open>s\<close>.\<close>

definition ior_from_prev :: "nat \<Rightarrow> nat \<Rightarrow> bool list \<Rightarrow> bool list \<Rightarrow> bool list" where
  "ior_from_prev stride len d s =
     map (\<lambda>p. d ! p \<or> (0 < (p div stride) mod len \<and> s ! (p - stride)))
       [0..<length d]"

text \<open>
  The dilation of the high mask, one binding for each statement of the source:
  \<^verbatim>\<open>
  high_mask_dilated[:] = high_mask                            # d0
  high_mask_dilated[:-1,:] |= high_mask[1:,:]                 # d1, shift up
  high_mask_dilated[1:,:]  |= high_mask[:-1,:]                # d2, shift down
  high_mask_dilated[:,:-1] |= high_mask_dilated[:,1:]         # d3, shift left
  high_mask_dilated[:,1:]  |= high_mask_dilated[:,:-1]        # d4, shift right
  \<close>
  Indexing with two slices needs at least two axes: on an array of fewer dimensions
  numpy raises IndexError. Further axes are carried along (\<open>r\<close> elements for each
  position of the first two).
\<close>

definition dilate :: "bool ndarray \<Rightarrow> error + bool ndarray" where
  "dilate high_mask =
     (case shape high_mask of
        h # w # rest \<Rightarrow>
          let r = prod_list rest;
              d0 = elems high_mask;
              d1 = ior_from_next (w * r) h d0 (elems high_mask);
              d2 = ior_from_prev (w * r) h d1 (elems high_mask);
              d3 = ior_from_next r w d2 d2;
              d4 = ior_from_prev r w d3 d3
          in Inr \<lparr>shape = shape high_mask, elems = d4\<rparr>
      | _ \<Rightarrow> Inl IndexError)"

text \<open>The final mask: the dilated high mask and the low mask.\<close>

definition Tailcut_final_mask :: "fl ndarray \<Rightarrow> fl \<Rightarrow> fl \<Rightarrow> error + bool ndarray" where
  "Tailcut_final_mask img high_threshold low_threshold =
     (let high_mask = nd_ge img high_threshold;
          low_mask = nd_ge img low_threshold
      in case dilate high_mask of
           Inl e \<Rightarrow> Inl e
         | Inr high_mask_dilated \<Rightarrow> Inr (nd_and high_mask_dilated low_mask))"

text \<open>
  \<^verbatim>\<open>Tailcut.clean_image\<close>: the image times the final mask. (The plots drawn in
  verbose mode do not reach the result.)
\<close>

definition Tailcut_clean_image :: "fl ndarray \<Rightarrow> fl \<Rightarrow> fl \<Rightarrow> error + fl ndarray" where
  "Tailcut_clean_image img high_threshold low_threshold =
     (case Tailcut_final_mask img high_threshold low_threshold of
        Inl e \<Rightarrow> Inl e
      | Inr final_mask \<Rightarrow> Inr (nd_mul_mask img final_mask))"

section \<open>WaveletTransform\<close>

subsection \<open>Array operations used by the pipeline\<close>

definition nd_map :: "('a \<Rightarrow> 'b) \<Rightarrow> 'a ndarray \<Rightarrow> 'b ndarray" where
  "nd_map f a = \<lparr>shape = shape a, elems = map f (elems a)\<rparr>"

text \<open>\<^verbatim>\<open>np.count_nonzero(mask)\<close>.\<close>

definition count_nonzero :: "bool ndarray \<Rightarrow> nat" where
  "count_nonzero m = length (filter (\<lambda>b. b) (elems m))"

text \<open>
  The values \<open>vs\<close> are written, in order, to the positions where the mask is true.
\<close>

fun put_masked :: "bool list \<Rightarrow> 'a list \<Rightarrow> 'a list \<Rightarrow> 'a list" where
  "put_masked (m # ms) (x # xs) vs =
     (if m then (case vs of v # vs' \<Rightarrow> v # put_masked ms xs vs'
                          | [] \<Rightarrow> x # put_masked ms xs [])
      else x # put_masked ms xs vs)"
| "put_masked _ xs _ = xs"

text \<open>
  \<^verbatim>\<open>a[mask] = values\<close> with a one-dimensional array of values: numpy accepts as many
  values as the mask has true positions, or a single value that it repeats, and raises
  ValueError otherwise.
\<close>

definition assign_masked :: "bool ndarray \<Rightarrow> 'a ndarray \<Rightarrow> 'a list \<Rightarrow> error + 'a ndarray" where
  "assign_masked m a vs =
     (let n = count_nonzero m
      in if length vs = n then Inr \<lparr>shape = shape a, elems = put_masked (elems m) (elems a) vs\<rparr>
         else if length vs = 1
           then Inr \<lparr>shape = shape a,
                     elems = put_masked (elems m) (elems a) (replicate n (hd vs))\<rparr>
         else Inl ValueError)"

text \<open>
  \<^verbatim>\<open>a[mask] = np.nan\<close>: a boolean index must have the shape of the array it indexes,
  otherwise numpy raises IndexError.
\<close>

definition set_nan_where :: "bool ndarray \<Rightarrow> fl ndarray \<Rightarrow> error + fl ndarray" where
  "set_nan_where m a =
     (if shape m \<noteq> shape a then Inl IndexError
      else Inr \<lparr>shape = shape a,
                elems = map2 (\<lambda>b x. if b then NaN else x) (elems m) (elems a)\<rparr>)"

text \<open>The smaller of two values, neither of them NaN.\<close>

definition fl_min :: "fl \<Rightarrow> fl \<Rightarrow> fl" where
  "fl_min x y = (if fl_lt y x then y else x)"

text \<open>
  \<^verbatim>\<open>np.nanmin\<close>: the minimum over the values that are not NaN (infinities take part);
  NaN when every value is NaN; ValueError on an array with no element.
\<close>

definition nanmin :: "fl ndarray \<Rightarrow> error + fl" where
  "nanmin a =
     (if elems a = [] then Inl ValueError
      else case filter (\<lambda>x. \<not> isnan x) (elems a) of
             [] \<Rightarrow> Inr NaN
           | y # ys \<Rightarrow> Inr (fold fl_min ys y))"

subsection \<open>Parameters and environment\<close>

text \<open>
  The parameters of \<^verbatim>\<open>WaveletTransform.clean_image\<close> that reach the image. The other
  keyword arguments only choose the flags of the command line, and the report
  dictionary only receives timings and statistics; neither is represented. The noise
  distribution is its \<^verbatim>\<open>rvs\<close> method: the samples it returns for a requested size.
\<close>

record wt_params =
  suppress_last_scale :: bool
  kill_isolated_pixels :: bool
  offset_after_calibration :: "fl option"
  correction_offset :: bool
  input_image_scale :: string
  noise_distribution :: "(nat \<Rightarrow> fl list) option"

text \<open>
  What the call meets outside this file: whether writing the input file fails, what
  the external program \<^verbatim>\<open>mr_filter\<close> writes for a given input file under the call's
  command line (\<open>None\<close>: it writes no output file), and the isolated-pixel filter of
  \<^verbatim>\<open>datapipe.image.kill_isolated_pixels\<close>.
\<close>

record env =
  save_fails :: bool
  mr_filter :: "fl ndarray \<Rightarrow> fl ndarray option"
  scipy_kill_isolated_pixels :: "fl ndarray \<Rightarrow> fl ndarray"

text \<open>The files on disk: the array stored under each existing path.\<close>

type_synonym fs = "string \<rightharpoonup> fl ndarray"

text \<open>
  Modelled from the spec: \<^verbatim>\<open>datapipe.io.images.save\<close> is not among the sources. It
  serialises the grid to the given path, or fails with an I/O error.
\<close>

definition images_save :: "env \<Rightarrow> fl ndarray \<Rightarrow> string \<Rightarrow> fs \<Rightarrow> error + fs" where
  "images_save ev img path files =
     (if save_fails ev then Inl SaveFailed else Inr (files(path \<mapsto> img)))"

text \<open>
  Modelled from the spec: \<^verbatim>\<open>datapipe.io.images.load\<close> is not among the sources. It
  deserialises the grid stored at the path, or fails with an I/O error.
\<close>

definition images_load :: "string \<Rightarrow> fs \<Rightarrow> error + fl ndarray" where
  "images_load path files = (case files path of None \<Rightarrow> Inl LoadFailed | Some g \<Rightarrow> Inr g)"

text \<open>\<^verbatim>\<open>os.remove\<close>: raises when the path does not exist.\<close>

definition os_remove :: "string \<Rightarrow> fs \<Rightarrow> error + fs" where
  "os_remove path files =
     (if files path = None then Inl FileNotFoundError else Inr (files(path := None)))"

text \<open>
  \<^verbatim>\<open>os.system(cmd)\<close>: the external program reads the input file and may write the
  output file. Its exit status is not looked at.
\<close>

definition os_system :: "env \<Rightarrow> string \<Rightarrow> string \<Rightarrow> fs \<Rightarrow> fs" where
  "os_system ev input_file_path mr_output_file_path files =
     (case files input_file_path of
        None \<Rightarrow> files
      | Some x \<Rightarrow> (case mr_filter ev x of
                    None \<Rightarrow> files
                  | Some g \<Rightarrow> files(mr_output_file_path \<mapsto> g)))"

subsection \<open>The pipeline\<close>

text \<open>Noise injection: samples are drawn for the NaN pixels when a distribution is given.\<close>

definition inject_noise :: "wt_params \<Rightarrow> bool ndarray \<Rightarrow> fl ndarray \<Rightarrow> error + fl ndarray" where
  "inject_noise ps nan_mask input_img =
     (case noise_distribution ps of
        None \<Rightarrow> Inr input_img
      | Some rvs \<Rightarrow> assign_masked nan_mask input_img (rvs (count_nonzero nan_mask)))"

text \<open>The offset after calibration, added to every pixel.\<close>

definition apply_offset :: "wt_params \<Rightarrow> fl ndarray \<Rightarrow> fl ndarray" where
  "apply_offset ps input_img =
     (case offset_after_calibration ps of
        None \<Rightarrow> input_img
      | Some off \<Rightarrow> nd_map (\<lambda>x. fl_add x off) input_img)"

text \<open>The change of scale.\<close>

definition change_scale :: "wt_params \<Rightarrow> fl ndarray \<Rightarrow> fl ndarray" where
  "change_scale ps input_img =
     (if input_image_scale ps = ''log'' then nd_map np_log10 input_img
      else if input_image_scale ps = ''sqrt'' then nd_map np_sqrt input_img
      else input_img)"

text \<open>Noise injection, offset and change of scale: the grid written for the external program.\<close>

definition wt_prepare :: "wt_params \<Rightarrow> bool ndarray \<Rightarrow> fl ndarray \<Rightarrow> error + fl ndarray" where
  "wt_prepare ps nan_mask input_img =
     (case inject_noise ps nan_mask input_img of
        Inl e \<Rightarrow> Inl e
      | Inr img \<Rightarrow> Inr (change_scale ps (apply_offset ps img)))"

text \<open>
  Write the input file, run the external program, read its output file, remove both
  files. The second component is the file system the step leaves behind.
\<close>

definition wt_exchange ::
  "env \<Rightarrow> string \<Rightarrow> string \<Rightarrow> fl ndarray \<Rightarrow> fs \<Rightarrow> (error + fl ndarray) \<times> fs" where
  "wt_exchange ev input_file_path mr_output_file_path input_img files =
     (case images_save ev input_img input_file_path files of
        Inl e \<Rightarrow> (Inl e, files)
      | Inr files1 \<Rightarrow>
          let files2 = os_system ev input_file_path mr_output_file_path files1
          in case images_load mr_output_file_path files2 of
               Inl e \<Rightarrow> (Inl e, files2)
             | Inr cleaned_img \<Rightarrow>
                 (case os_remove input_file_path files2 of
                    Inl e \<Rightarrow> (Inl e, files2)
                  | Inr files3 \<Rightarrow>
                      (case os_remove mr_output_file_path files3 of
                         Inl e \<Rightarrow> (Inl e, files3)
                       | Inr files4 \<Rightarrow> (Inr cleaned_img, files4))))"

text \<open>\<^verbatim>\<open>img[np.isfinite(img) & (img < 1.0)] = 0.\<close> on one pixel.\<close>

definition floor_below_one :: "fl \<Rightarrow> fl" where
  "floor_below_one x = (if isfinite x \<and> fl_lt x (Fin 1) then Fin 0 else x)"

text \<open>The correction offset: subtract the minimum, then zero the finite values below 1.\<close>

definition apply_correction_offset :: "fl ndarray \<Rightarrow> error + fl ndarray" where
  "apply_correction_offset cleaned_img =
     (case nanmin cleaned_img of
        Inl e \<Rightarrow> Inl e
      | Inr m \<Rightarrow> Inr (nd_map floor_below_one (nd_map (\<lambda>x. fl_sub x m) cleaned_img)))"

text \<open>The inverse change of scale, as the code has it (a power of 2 after a square root).\<close>

definition invert_scale :: "wt_params \<Rightarrow> fl ndarray \<Rightarrow> fl ndarray" where
  "invert_scale ps cleaned_img =
     (if input_image_scale ps = ''log'' then nd_map (np_power 10) cleaned_img
      else if input_image_scale ps = ''sqrt'' then nd_map (np_power 2) cleaned_img
      else cleaned_img)"

text \<open>The offset is taken off again, unless the last scale was suppressed.\<close>

definition invert_offset :: "wt_params \<Rightarrow> fl ndarray \<Rightarrow> fl ndarray" where
  "invert_offset ps cleaned_img =
     (case offset_after_calibration ps of
        Some off \<Rightarrow>
          if \<not> suppress_last_scale ps then nd_map (\<lambda>x. fl_sub x off) cleaned_img
          else cleaned_img
      | None \<Rightarrow> cleaned_img)"

definition correction_step :: "wt_params \<Rightarrow> fl ndarray \<Rightarrow> error + fl ndarray" where
  "correction_step ps cleaned_img =
     (if correction_offset ps then apply_correction_offset cleaned_img else Inr cleaned_img)"

definition kill_step :: "env \<Rightarrow> wt_params \<Rightarrow> fl ndarray \<Rightarrow> fl ndarray" where
  "kill_step ev ps cleaned_img =
     (if kill_isolated_pixels ps then scipy_kill_isolated_pixels ev cleaned_img
      else cleaned_img)"

text \<open>
  Check of the result, NaN put back, inverse scale, inverse offset, correction offset,
  removal of isolated pixels. (The island statistics computed before the last step go
  to the report dictionary only.)
\<close>

definition wt_finish :: "env \<Rightarrow> wt_params \<Rightarrow> bool ndarray \<Rightarrow> fl ndarray \<Rightarrow> error + fl ndarray" where
  "wt_finish ev ps nan_mask cleaned_img =
     (if ndim cleaned_img \<noteq> 2 then Inl WrongDimensionError
      else case set_nan_where nan_mask cleaned_img of
        Inl e \<Rightarrow> Inl e
      | Inr img \<Rightarrow>
          (case correction_step ps (invert_offset ps (invert_scale ps img)) of
             Inl e \<Rightarrow> Inl e
           | Inr img' \<Rightarrow> Inr (kill_step ev ps img')))"

text \<open>
  \<^verbatim>\<open>WaveletTransform.clean_image\<close>. The two temporary paths are arguments (the code
  derives them from the process id and the clock). The result is what the call returns
  or raises, together with the file system it leaves behind.
\<close>

definition WaveletTransform_clean_image ::
  "env \<Rightarrow> wt_params \<Rightarrow> string \<Rightarrow> string \<Rightarrow> fs \<Rightarrow> fl ndarray \<Rightarrow> (error + fl ndarray) \<times> fs" where
  "WaveletTransform_clean_image ev ps input_file_path mr_output_file_path files input_img =
     (if ndim input_img \<noteq> 2 then (Inl WrongDimensionError, files)
      else
        let nan_mask = nd_map isnan input_img
        in case wt_prepare ps nan_mask input_img of
             Inl e \<Rightarrow> (Inl e, files)
           | Inr img \<Rightarrow>
               (case wt_exchange ev input_file_path mr_output_file_path img files of
                  (Inl e, files') \<Rightarrow> (Inl e, files')
                | (Inr cleaned_img, files') \<Rightarrow> (wt_finish ev ps nan_mask cleaned_img, files')))"

text \<open>The finite values of a list of pixels.\<close>

fun finite_values :: "fl list \<Rightarrow> real list" where
  "finite_values [] = []"
| "finite_values (Fin a # xs) = a # finite_values xs"
| "finite_values (_ # xs) = finite_values xs"

section \<open>Properties of the dilation\<close>

lemma length_ior_from_next: "length (ior_from_next st len d s) = length d"
  by (simp add: ior_from_next_def)

lemma length_ior_from_prev: "length (ior_from_prev st len d s) = length d"
  by (simp add: ior_from_prev_def)

lemma ior_from_next_keeps: "p < length d \<Longrightarrow> d ! p \<Longrightarrow> ior_from_next st len d s ! p"
  by (simp add: ior_from_next_def)

lemma ior_from_prev_keeps: "p < length d \<Longrightarrow> d ! p \<Longrightarrow> ior_from_prev st len d s ! p"
  by (simp add: ior_from_prev_def)

lemma dilate_rank:
  "dilate m = Inl e \<Longrightarrow> e = IndexError \<and> length (shape m) < 2"
  by (auto simp: dilate_def Let_def split: list.splits)

lemma dilate_shape: "dilate m = Inr d \<Longrightarrow> shape d = shape m \<and> 2 \<le> length (shape m)"
  by (auto simp: dilate_def Let_def split: list.splits)

lemma dilate_length: "dilate m = Inr d \<Longrightarrow> length (elems d) = length (elems m)"
  by (auto simp: dilate_def Let_def length_ior_from_next length_ior_from_prev
      split: list.splits)

lemma dilate_extensive:
  assumes "dilate m = Inr d" and "p < length (elems m)" and "elems m ! p"
  shows "elems d ! p"
proof -
  from assms(1) obtain h w rest where sh: "shape m = h # w # rest"
    by (auto simp: dilate_def split: list.splits)
  define r where "r = prod_list rest"
  define d1 where "d1 = ior_from_next (w * r) h (elems m) (elems m)"
  define d2 where "d2 = ior_from_prev (w * r) h d1 (elems m)"
  define d3 where "d3 = ior_from_next r w d2 d2"
  define d4 where "d4 = ior_from_prev r w d3 d3"
  have d: "elems d = d4"
    using assms(1) sh by (auto simp: dilate_def Let_def r_def d1_def d2_def d3_def d4_def)
  have l1: "length d1 = length (elems m)"
    by (simp add: d1_def length_ior_from_next)
  have l2: "length d2 = length (elems m)"
    by (simp add: d2_def length_ior_from_prev l1)
  have l3: "length d3 = length (elems m)"
    by (simp add: d3_def length_ior_from_next l2)
  have "d1 ! p" unfolding d1_def using assms(2,3) by (rule ior_from_next_keeps)
  then have "d2 ! p" unfolding d2_def using assms(2) l1 by (simp add: ior_from_prev_keeps)
  then have "d3 ! p" unfolding d3_def using assms(2) l2 by (simp add: ior_from_next_keeps)
  then have "d4 ! p" unfolding d4_def using assms(2) l3 by (simp add: ior_from_prev_keeps)
  with d show ?thesis by simp
qed

text \<open>
  The example given in the comment of the source: two pixels above the high threshold
  in a grid of 5 rows and 9 columns, each dilated to a block of 3 by 3.
\<close>

lemma dilate_source_example:
  "dilate \<lparr>shape = [5, 9], elems =
      [False, False, False, False, False, False, False, False, False,
       False, False, False, False, False, False, False, False, False,
       False, False, True,  False, False, False, True,  False, False,
       False, False, False, False, False, False, False, False, False,
       False, False, False, False, False, False, False, False, False]\<rparr>
   = Inr \<lparr>shape = [5, 9], elems =
      [False, False, False, False, False, False, False, False, False,
       False, True,  True,  True,  False, True,  True,  True,  False,
       False, True,  True,  True,  False, True,  True,  True,  False,
       False, True,  True,  True,  False, True,  True,  True,  False,
       False, False, False, False, False, False, False, False, False]\<rparr>"
proof -
  let ?h = "[False, False, False, False, False, False, False, False, False,
       False, False, False, False, False, False, False, False, False,
       False, False, True,  False, False, False, True,  False, False,
       False, False, False, False, False, False, False, False, False,
       False, False, False, False, False, False, False, False, False]"
  let ?v = "[False, False, False, False, False, False, False, False, False,
       False, False, True,  False, False, False, True,  False, False,
       False, False, True,  False, False, False, True,  False, False,
       False, False, True,  False, False, False, True,  False, False,
       False, False, False, False, False, False, False, False, False]"
  have up: "ior_from_next 9 5 ?h ?h =
      [False, False, False, False, False, False, False, False, False,
       False, False, True,  False, False, False, True,  False, False,
       False, False, True,  False, False, False, True,  False, False,
       False, False, False, False, False, False, False, False, False,
       False, False, False, False, False, False, False, False, False]"
    by (simp add: ior_from_next_def upt_rec)
  have down: "ior_from_prev 9 5
      [False, False, False, False, False, False, False, False, False,
       False, False, True,  False, False, False, True,  False, False,
       False, False, True,  False, False, False, True,  False, False,
       False, False, False, False, False, False, False, False, False,
       False, False, False, False, False, False, False, False, False] ?h = ?v"
    by (simp add: ior_from_prev_def upt_rec)
  have left: "ior_from_next 1 9 ?v ?v =
      [False, False, False, False, False, False, False, False, False,
       False, True,  True,  False, False, True,  True,  False, False,
       False, True,  True,  False, False, True,  True,  False, False,
       False, True,  True,  False, False, True,  True,  False, False,
       False, False, False, False, False, False, False, False, False]"
    by (simp add: ior_from_next_def upt_rec)
  have right: "ior_from_prev 1 9
      [False, False, False, False, False, False, False, False, False,
       False, True,  True,  False, False, True,  True,  False, False,
       False, True,  True,  False, False, True,  True,  False, False,
       False, True,  True,  False, False, True,  True,  False, False,
       False, False, False, False, False, False, False, False, False]
      [False, False, False, False, False, False, False, False, False,
       False, True,  True,  False, False, True,  True,  False, False,
       False, True,  True,  False, False, True,  True,  False, False,
       False, True,  True,  False, False, True,  True,  False, False,
       False, False, False, False, False, False, False, False, False] =
      [False, False, False, False, False, False, False, False, False,
       False, True,  True,  True,  False, True,  True,  True,  False,
       False, True,  True,  True,  False, True,  True,  True,  False,
       False, True,  True,  True,  False, True,  True,  True,  False,
       False, False, False, False, False, False, False, False, False]"
    by (simp add: ior_from_prev_def upt_rec)
  show ?thesis
    by (simp only: dilate_def Let_def ndarray.simps list.case prod_list.Nil prod_list.Cons
        mult_1_right up down left right)
qed

text \<open>A position that is not last along its axis has its successor inside the array.\<close>

lemma next_in_range:
  fixes p a len st :: nat
  assumes "p < a * len * st" and "Suc ((p div st) mod len) < len"
  shows "p + st < a * len * st"
proof -
  have st: "0 < st" using assms(1) by (cases st) auto
  define q where "q = p div st"
  define k where "k = q div len"
  define m where "m = q mod len"
  have q: "q < a * len" unfolding q_def using assms(1) st
    by (simp add: less_mult_imp_div_less)
  have "k < a" unfolding k_def using q
    by (simp add: less_mult_imp_div_less mult.commute)
  then have "Suc k * len \<le> a * len"
    using mult_le_mono1 Suc_leI by blast
  then have ka: "k * len + len \<le> a * len" by simp
  have qk: "q = k * len + m" unfolding k_def m_def by simp
  have "Suc m < len" using assms(2) by (simp add: m_def q_def)
  with ka qk have "Suc (Suc q) \<le> a * len" by linarith
  then have "Suc (Suc q) * st \<le> a * len * st" by (rule mult_le_mono1)
  then have le: "q * st + st + st \<le> a * len * st" by simp
  have "p = q * st + p mod st" unfolding q_def by simp
  moreover have "p mod st < st" using st by simp
  ultimately have "p < q * st + st" by linarith
  with le show ?thesis by linarith
qed

lemma ior_from_next_mono:
  assumes "length d1 = n" "length d2 = n"
    and "\<And>q. q < n \<Longrightarrow> d1 ! q \<Longrightarrow> d2 ! q"
    and "\<And>q. q < n \<Longrightarrow> s1 ! q \<Longrightarrow> s2 ! q"
    and "n = a * len * st" and "p < n"
    and "ior_from_next st len d1 s1 ! p"
  shows "ior_from_next st len d2 s2 ! p"
proof -
  from assms(1,6,7) have "d1 ! p \<or> (Suc ((p div st) mod len) < len \<and> s1 ! (p + st))"
    by (simp add: ior_from_next_def)
  then show ?thesis
  proof
    assume "d1 ! p"
    then have "d2 ! p" using assms(3,6) by blast
    then show ?thesis using assms(2,6) by (simp add: ior_from_next_def)
  next
    assume h: "Suc ((p div st) mod len) < len \<and> s1 ! (p + st)"
    then have "p + st < n" using next_in_range [of p a len st] assms(5,6) by simp
    then have "s2 ! (p + st)" using h assms(4) by blast
    then show ?thesis using h assms(2,6) by (simp add: ior_from_next_def)
  qed
qed

lemma ior_from_prev_mono:
  assumes "length d1 = n" "length d2 = n"
    and "\<And>q. q < n \<Longrightarrow> d1 ! q \<Longrightarrow> d2 ! q"
    and "\<And>q. q < n \<Longrightarrow> s1 ! q \<Longrightarrow> s2 ! q"
    and "p < n"
    and "ior_from_prev st len d1 s1 ! p"
  shows "ior_from_prev st len d2 s2 ! p"
proof -
  from assms(1,5,6) have "d1 ! p \<or> (0 < (p div st) mod len \<and> s1 ! (p - st))"
    by (simp add: ior_from_prev_def)
  then show ?thesis
  proof
    assume "d1 ! p"
    then have "d2 ! p" using assms(3,5) by blast
    then show ?thesis using assms(2,5) by (simp add: ior_from_prev_def)
  next
    assume h: "0 < (p div st) mod len \<and> s1 ! (p - st)"
    have "p - st < n" using assms(5) by simp
    then have "s2 ! (p - st)" using h assms(4) by blast
    then show ?thesis using h assms(2,5) by (simp add: ior_from_prev_def)
  qed
qed

lemma dilate_mono:
  assumes d1: "dilate m1 = Inr e1" and d2: "dilate m2 = Inr e2"
    and sh: "shape m1 = shape m2"
    and n1: "length (elems m1) = prod_list (shape m1)"
    and n2: "length (elems m2) = prod_list (shape m2)"
    and sub: "\<And>q. q < length (elems m1) \<Longrightarrow> elems m1 ! q \<Longrightarrow> elems m2 ! q"
    and p: "p < length (elems m1)" and e1: "elems e1 ! p"
  shows "elems e2 ! p"
proof -
  from d1 obtain h w rest where s1: "shape m1 = h # w # rest"
    by (auto simp: dilate_def split: list.splits)
  define r where "r = prod_list rest"
  define n where "n = length (elems m1)"
  define a1 where "a1 = ior_from_next (w * r) h (elems m1) (elems m1)"
  define a2 where "a2 = ior_from_prev (w * r) h a1 (elems m1)"
  define a3 where "a3 = ior_from_next r w a2 a2"
  define a4 where "a4 = ior_from_prev r w a3 a3"
  define b1 where "b1 = ior_from_next (w * r) h (elems m2) (elems m2)"
  define b2 where "b2 = ior_from_prev (w * r) h b1 (elems m2)"
  define b3 where "b3 = ior_from_next r w b2 b2"
  define b4 where "b4 = ior_from_prev r w b3 b3"
  have ea: "elems e1 = a4"
    using d1 s1 by (auto simp: dilate_def Let_def r_def a1_def a2_def a3_def a4_def)
  have eb: "elems e2 = b4"
    using d2 s1 sh by (auto simp: dilate_def Let_def r_def b1_def b2_def b3_def b4_def)
  have nm2: "length (elems m2) = n" using n1 n2 sh by (simp add: n_def)
  have nn0: "n = 1 * h * (w * r)" using n1 s1 by (simp add: n_def r_def)
  have nn1: "n = h * w * r" using n1 s1 by (simp add: n_def r_def)
  have la1: "length a1 = n" by (simp add: a1_def n_def length_ior_from_next)
  have la2: "length a2 = n" by (simp add: a2_def la1 length_ior_from_prev)
  have la3: "length a3 = n" by (simp add: a3_def la2 length_ior_from_next)
  have lb1: "length b1 = n" by (simp add: b1_def nm2 length_ior_from_next)
  have lb2: "length b2 = n" by (simp add: b2_def lb1 length_ior_from_prev)
  have lb3: "length b3 = n" by (simp add: b3_def lb2 length_ior_from_next)
  have sub': "\<And>q. q < n \<Longrightarrow> elems m1 ! q \<Longrightarrow> elems m2 ! q"
    using sub by (simp add: n_def)
  have s1: "\<And>q. q < n \<Longrightarrow> a1 ! q \<Longrightarrow> b1 ! q"
    unfolding a1_def b1_def
    by (rule ior_from_next_mono [where n = n and a = 1, OF _ nm2 sub' sub' nn0])
       (simp_all add: n_def)
  have s2: "\<And>q. q < n \<Longrightarrow> a2 ! q \<Longrightarrow> b2 ! q"
    unfolding a2_def b2_def
    by (rule ior_from_prev_mono [where n = n, OF la1 lb1 s1 sub']) simp_all
  have s3: "\<And>q. q < n \<Longrightarrow> a3 ! q \<Longrightarrow> b3 ! q"
    unfolding a3_def b3_def
    by (rule ior_from_next_mono [where n = n and a = h, OF la2 lb2 s2 s2 nn1]) simp_all
  have s4: "\<And>q. q < n \<Longrightarrow> a4 ! q \<Longrightarrow> b4 ! q"
    unfolding a4_def b4_def
    by (rule ior_from_prev_mono [where n = n, OF la3 lb3 s3 s3]) simp_all
  show ?thesis using s4 [of p] p e1 ea eb by (simp add: n_def)
qed

section \<open>Auxiliary facts about Tailcut\<close>

lemma dilate_total: "2 \<le> length (shape m) \<Longrightarrow> \<exists>d. dilate m = Inr d"
  by (cases "shape m"; cases "tl (shape m)") (auto simp: dilate_def Let_def)

lemma and_absorb:
  "length ds = length hs \<Longrightarrow> (\<And>p. p < length hs \<Longrightarrow> hs ! p \<Longrightarrow> ds ! p) \<Longrightarrow> map2 (\<and>) ds hs = hs"
  by (rule nth_equalityI) auto

lemma fl_ge_weaken: "fl_lt hi lo \<Longrightarrow> fl_ge x lo \<Longrightarrow> fl_ge x hi"
  by (cases hi; cases lo; cases x) auto

lemma fl_ge_chain: "fl_ge x hi \<Longrightarrow> \<not> fl_ge x lo \<Longrightarrow> fl_ge y lo \<Longrightarrow> fl_ge y hi"
  by (cases hi; cases lo; cases x; cases y) auto

lemma fl_mul_one: "fl_mul x (of_mask True) = x"
  by (cases x) (auto simp: of_mask_def inf_of_sign_def)

lemma fl_mul_zero: "fl_mul x (of_mask False) = (if isfinite x then Fin 0 else NaN)"
  by (cases x) (auto simp: of_mask_def inf_of_sign_def)

lemma fl_mul_mask_again: "fl_mul (fl_mul x (of_mask False)) (of_mask b) = fl_mul x (of_mask False)"
  by (cases x) (auto simp: of_mask_def inf_of_sign_def)

lemma fl_ge_masked_out: "\<not> fl_ge (Fin 0) lo \<Longrightarrow> \<not> fl_ge (fl_mul x (of_mask False)) lo"
  by (cases x; cases lo) (auto simp: of_mask_def inf_of_sign_def)

text \<open>What a successful call computes, spelled out on the element lists.\<close>

lemma Tailcut_final_mask_Inr:
  assumes "Tailcut_final_mask img hi lo = Inr m"
  obtains d where "dilate (nd_ge img hi) = Inr d"
    and "m = \<lparr>shape = shape img, elems = map2 (\<and>) (elems d) (map (\<lambda>x. fl_ge x lo) (elems img))\<rparr>"
    and "length (elems d) = length (elems img)"
    and "2 \<le> length (shape img)"
proof -
  from assms obtain d where d: "dilate (nd_ge img hi) = Inr d"
    by (auto simp: Tailcut_final_mask_def Let_def split: sum.splits)
  have "shape d = shape img \<and> 2 \<le> length (shape img)"
    using dilate_shape [OF d] by (simp add: nd_ge_def)
  moreover have "length (elems d) = length (elems img)"
    using dilate_length [OF d] by (simp add: nd_ge_def)
  moreover have "m = nd_and d (nd_ge img lo)"
    using assms d by (simp add: Tailcut_final_mask_def Let_def)
  ultimately show ?thesis using d that by (simp add: nd_and_def nd_ge_def)
qed

lemma Tailcut_clean_image_Inr:
  assumes "Tailcut_clean_image img hi lo = Inr out"
  obtains m where "Tailcut_final_mask img hi lo = Inr m" and "out = nd_mul_mask img m"
  using assms by (auto simp: Tailcut_clean_image_def split: sum.splits)

lemma Tailcut_final_mask_total:
  "2 \<le> length (shape img) \<Longrightarrow> \<exists>m. Tailcut_final_mask img hi lo = Inr m"
  using dilate_total [of "nd_ge img hi"]
  by (auto simp: Tailcut_final_mask_def Let_def nd_ge_def)

lemma Tailcut_final_mask_rank:
  "length (shape img) < 2 \<Longrightarrow> Tailcut_final_mask img hi lo = Inl IndexError"
  using dilate_shape [of "nd_ge img hi"]
  by (cases "dilate (nd_ge img hi)")
     (auto simp: Tailcut_final_mask_def Let_def nd_ge_def dest: dilate_rank)

section \<open>Tailcut: the claims\<close>

text \<open>
  Claim C4, as stated, fails: a NaN pixel is outside the final mask (no comparison with
  NaN holds), and the product of NaN with the mask value 0.0 is NaN, not zero.
\<close>

theorem tailcut_nan_not_zeroed:
  "Tailcut_final_mask \<lparr>shape = [1, 2], elems = [NaN, Fin 20]\<rparr> (Fin 10) (Fin 5)
     = Inr \<lparr>shape = [1, 2], elems = [False, True]\<rparr>
   \<and> Tailcut_clean_image \<lparr>shape = [1, 2], elems = [NaN, Fin 20]\<rparr> (Fin 10) (Fin 5)
     = Inr \<lparr>shape = [1, 2], elems = [NaN, Fin 20]\<rparr>"
  by (simp add: Tailcut_clean_image_def Tailcut_final_mask_def dilate_def ior_from_next_def
      ior_from_prev_def nd_and_def nd_ge_def nd_mul_mask_def of_mask_def Let_def)

text \<open>
  Claim C4, amended: in the output of \<^verbatim>\<open>Tailcut.clean_image\<close>, a pixel that the final
  mask excludes is exactly zero when its input value is finite, and NaN when its input
  value is NaN or infinite; a pixel that is NaN in the input is always excluded by the
  mask.
\<close>

theorem tailcut_excluded_pixels:
  assumes "Tailcut_final_mask img high_threshold low_threshold = Inr final_mask"
    and "Tailcut_clean_image img high_threshold low_threshold = Inr cleaned_img"
    and "p < length (elems img)"
  shows "(\<not> elems final_mask ! p \<longrightarrow>
            elems cleaned_img ! p = (if isfinite (elems img ! p) then Fin 0 else NaN))
       \<and> (isnan (elems img ! p) \<longrightarrow> \<not> elems final_mask ! p)"
proof -
  from assms(1) obtain d where d: "dilate (nd_ge img high_threshold) = Inr d"
    and md: "final_mask = \<lparr>shape = shape img,
           elems = map2 (\<and>) (elems d) (map (\<lambda>x. fl_ge x low_threshold) (elems img))\<rparr>"
    and len: "length (elems d) = length (elems img)"
    and rank: "2 \<le> length (shape img)"
    by (rule Tailcut_final_mask_Inr)
  have out: "cleaned_img = nd_mul_mask img final_mask"
    using assms(1,2) by (simp add: Tailcut_clean_image_def)
  have lm: "length (elems final_mask) = length (elems img)" using md len by simp
  have "elems cleaned_img ! p = fl_mul (elems img ! p) (of_mask (elems final_mask ! p))"
    using out lm assms(3) by (simp add: nd_mul_mask_def)
  then have "\<not> elems final_mask ! p \<Longrightarrow>
      elems cleaned_img ! p = (if isfinite (elems img ! p) then Fin 0 else NaN)"
    by (simp add: fl_mul_zero)
  moreover have "isnan (elems img ! p) \<Longrightarrow> \<not> elems final_mask ! p"
    using md len assms(3) by (cases "elems img ! p") auto
  ultimately show ?thesis by blast
qed

theorem tailcut_excluded_pixels_witness:
  "elems \<lparr>shape = [1, 2], elems = [NaN, Fin 20]\<rparr> ! 0 = NaN
   \<and> \<not> elems \<lparr>shape = [1, 2], elems = [False, True]\<rparr> ! 0"
  using tailcut_excluded_pixels
    [of "\<lparr>shape = [1, 2], elems = [NaN, Fin 20]\<rparr>" "Fin 10" "Fin 5"
        "\<lparr>shape = [1, 2], elems = [False, True]\<rparr>"
        "\<lparr>shape = [1, 2], elems = [NaN, Fin 20]\<rparr>" 0]
  by (simp add: Tailcut_clean_image_def Tailcut_final_mask_def dilate_def ior_from_next_def
      ior_from_prev_def nd_and_def nd_ge_def nd_mul_mask_def of_mask_def Let_def)

text \<open>
  Claim C5: with \<open>high_threshold = low_threshold = t\<close>, \<^verbatim>\<open>Tailcut.clean_image\<close> returns
  \<^verbatim>\<open>image * (image >= t)\<close> for every image (an array with at least the two axes the
  dilation indexes): the dilation has no effect on the output.
\<close>

theorem tailcut_equal_thresholds:
  assumes "2 \<le> ndim img"
  shows "Tailcut_clean_image img t t = Inr (nd_mul_mask img (nd_ge img t))"
proof -
  from assms obtain m where m: "Tailcut_final_mask img t t = Inr m"
    using Tailcut_final_mask_total [of img t t] by (auto simp: ndim_def)
  from m obtain d where d: "dilate (nd_ge img t) = Inr d"
    and md: "m = \<lparr>shape = shape img, elems = map2 (\<and>) (elems d) (map (\<lambda>x. fl_ge x t) (elems img))\<rparr>"
    and len: "length (elems d) = length (elems img)"
    and rank: "2 \<le> length (shape img)"
    by (rule Tailcut_final_mask_Inr)
  have "map2 (\<and>) (elems d) (map (\<lambda>x. fl_ge x t) (elems img)) = map (\<lambda>x. fl_ge x t) (elems img)"
  proof (rule and_absorb)
    show "length (elems d) = length (map (\<lambda>x. fl_ge x t) (elems img))" using len by simp
  next
    fix p assume "p < length (map (\<lambda>x. fl_ge x t) (elems img))"
      and "map (\<lambda>x. fl_ge x t) (elems img) ! p"
    then show "elems d ! p" using dilate_extensive [OF d, of p] by (simp add: nd_ge_def)
  qed
  then have "m = nd_ge img t" using md by (simp add: nd_ge_def)
  then show ?thesis using m by (simp add: Tailcut_clean_image_def)
qed

theorem tailcut_equal_thresholds_witness:
  "Tailcut_clean_image \<lparr>shape = [2, 2], elems = [Fin 7, Fin 1, NaN, Fin 5]\<rparr> (Fin 5) (Fin 5)
     = Inr \<lparr>shape = [2, 2], elems = [Fin 7, Fin 0, NaN, Fin 5]\<rparr>"
  using tailcut_equal_thresholds
    [of "\<lparr>shape = [2, 2], elems = [Fin 7, Fin 1, NaN, Fin 5]\<rparr>" "Fin 5"]
  by (simp add: ndim_def nd_mul_mask_def nd_ge_def of_mask_def)

text \<open>
  Claim C6, as stated, fails: with a low threshold that zero reaches, a pixel that the
  first pass masked out (and so set to zero) passes the low threshold in the second pass,
  and the final mask grows. Here \<open>[[10, -5]]\<close> is cleaned with thresholds 10 and -1.
\<close>

theorem tailcut_mask_not_idempotent:
  "Tailcut_final_mask \<lparr>shape = [1, 2], elems = [Fin 10, Fin (- 5)]\<rparr> (Fin 10) (Fin (- 1))
     = Inr \<lparr>shape = [1, 2], elems = [True, False]\<rparr>
   \<and> Tailcut_clean_image \<lparr>shape = [1, 2], elems = [Fin 10, Fin (- 5)]\<rparr> (Fin 10) (Fin (- 1))
     = Inr \<lparr>shape = [1, 2], elems = [Fin 10, Fin 0]\<rparr>
   \<and> Tailcut_final_mask \<lparr>shape = [1, 2], elems = [Fin 10, Fin 0]\<rparr> (Fin 10) (Fin (- 1))
     = Inr \<lparr>shape = [1, 2], elems = [True, True]\<rparr>"
  by (simp add: Tailcut_clean_image_def Tailcut_final_mask_def dilate_def ior_from_next_def
      ior_from_prev_def nd_and_def nd_ge_def nd_mul_mask_def of_mask_def Let_def)

text \<open>
  Claim C6, amended: for every image and every threshold pair, applying
  \<^verbatim>\<open>Tailcut.clean_image\<close> to its own output with the same thresholds returns that output
  again; the final mask of the second application is the final mask of the first whenever
  zero is not at or above the low threshold (\<^verbatim>\<open>0 >= low_threshold\<close> is false).
\<close>

theorem tailcut_idempotent:
  assumes wf: "wf_ndarray img"
    and out: "Tailcut_clean_image img high_threshold low_threshold = Inr cleaned_img"
  shows "Tailcut_clean_image cleaned_img high_threshold low_threshold = Inr cleaned_img
       \<and> (\<not> fl_ge (Fin 0) low_threshold \<longrightarrow>
            Tailcut_final_mask cleaned_img high_threshold low_threshold
              = Tailcut_final_mask img high_threshold low_threshold)"
proof -
  define E where "E = elems img"
  define n where "n = length E"
  from out obtain m where m: "Tailcut_final_mask img high_threshold low_threshold = Inr m"
    and om: "cleaned_img = nd_mul_mask img m"
    by (rule Tailcut_clean_image_Inr)
  from m obtain d where d: "dilate (nd_ge img high_threshold) = Inr d"
    and md: "m = \<lparr>shape = shape img,
                  elems = map2 (\<and>) (elems d) (map (\<lambda>x. fl_ge x low_threshold) (elems img))\<rparr>"
    and ld: "length (elems d) = length (elems img)"
    and rank: "2 \<le> length (shape img)"
    by (rule Tailcut_final_mask_Inr)
  define M where "M = elems m"
  define Cs where "Cs = elems cleaned_img"
  have lM: "length M = n" using md ld by (simp add: M_def n_def E_def)
  have lC: "length Cs = n" using om lM by (simp add: Cs_def nd_mul_mask_def M_def n_def E_def)
  have sC: "shape cleaned_img = shape img" using om by (simp add: nd_mul_mask_def)
  have Mp: "M ! p = (elems d ! p \<and> fl_ge (E ! p) low_threshold)" if "p < n" for p
    using that md ld by (simp add: M_def n_def E_def)
  have Cp: "Cs ! p = fl_mul (E ! p) (of_mask (M ! p))" if "p < n" for p
    using that om lM by (simp add: Cs_def nd_mul_mask_def M_def n_def E_def)
  have Cin: "Cs ! p = E ! p" if "p < n" "M ! p" for p
    using that Cp by (simp add: fl_mul_one)
  have Cout: "Cs ! p = fl_mul (E ! p) (of_mask False)" if "p < n" "\<not> M ! p" for p
    using that Cp by simp
  from rank sC obtain m' where
    m': "Tailcut_final_mask cleaned_img high_threshold low_threshold = Inr m'"
    using Tailcut_final_mask_total [of cleaned_img high_threshold low_threshold] by auto
  from m' obtain d' where d': "dilate (nd_ge cleaned_img high_threshold) = Inr d'"
    and md': "m' = \<lparr>shape = shape cleaned_img,
        elems = map2 (\<and>) (elems d') (map (\<lambda>x. fl_ge x low_threshold) (elems cleaned_img))\<rparr>"
    and ld': "length (elems d') = length (elems cleaned_img)"
    and rank': "2 \<le> length (shape cleaned_img)"
    by (rule Tailcut_final_mask_Inr)
  define M' where "M' = elems m'"
  have lM': "length M' = n" using md' ld' lC by (simp add: M'_def Cs_def)
  have M'p: "M' ! p = (elems d' ! p \<and> fl_ge (Cs ! p) low_threshold)" if "p < n" for p
    using that md' ld' lC by (simp add: M'_def Cs_def)
  have dil: "elems d' ! p" if p: "p < n" and Mp': "M ! p" for p
  proof (cases "\<forall>x. fl_ge x high_threshold \<longrightarrow> fl_ge x low_threshold")
    case True
    have "elems d' ! p"
    proof (rule dilate_mono [OF d d'])
      show "shape (nd_ge img high_threshold) = shape (nd_ge cleaned_img high_threshold)"
        using sC by (simp add: nd_ge_def)
      show "length (elems (nd_ge img high_threshold)) = prod_list (shape (nd_ge img high_threshold))"
        using wf by (simp add: nd_ge_def wf_ndarray_def)
      show "length (elems (nd_ge cleaned_img high_threshold))
              = prod_list (shape (nd_ge cleaned_img high_threshold))"
        using wf sC lC by (simp add: nd_ge_def wf_ndarray_def n_def E_def Cs_def)
      show "p < length (elems (nd_ge img high_threshold))"
        using p by (simp add: nd_ge_def n_def E_def)
      show "elems d ! p" using Mp' Mp [OF p] by simp
    next
      fix q assume q: "q < length (elems (nd_ge img high_threshold))"
        and hq: "elems (nd_ge img high_threshold) ! q"
      have qn: "q < n" using q by (simp add: nd_ge_def n_def E_def)
      have h: "fl_ge (E ! q) high_threshold" using hq qn by (simp add: nd_ge_def n_def E_def)
      then have "fl_ge (E ! q) low_threshold" using True by blast
      moreover have "elems d ! q" using dilate_extensive [OF d q hq] .
      ultimately have "M ! q" using Mp [OF qn] by simp
      then have "Cs ! q = E ! q" using Cin qn by blast
      then show "elems (nd_ge cleaned_img high_threshold) ! q"
        using h qn lC by (simp add: nd_ge_def Cs_def)
    qed
    then show ?thesis .
  next
    case False
    then obtain x where x: "fl_ge x high_threshold" "\<not> fl_ge x low_threshold" by blast
    have "fl_ge (E ! p) low_threshold" using Mp' Mp [OF p] by simp
    then have "fl_ge (E ! p) high_threshold" using fl_ge_chain [OF x] by blast
    then have "fl_ge (Cs ! p) high_threshold" using Cin [OF p Mp'] by simp
    then have "elems (nd_ge cleaned_img high_threshold) ! p"
      using p lC by (simp add: nd_ge_def Cs_def)
    moreover have "p < length (elems (nd_ge cleaned_img high_threshold))"
      using p lC by (simp add: nd_ge_def Cs_def)
    ultimately show ?thesis using dilate_extensive [OF d'] by blast
  qed
  have sub: "M' ! p" if p: "p < n" and Mp': "M ! p" for p
  proof -
    have "fl_ge (E ! p) low_threshold" using Mp' Mp [OF p] by simp
    then have "fl_ge (Cs ! p) low_threshold" using Cin [OF p Mp'] by simp
    then show ?thesis using dil [OF p Mp'] M'p [OF p] by simp
  qed
  have "map2 fl_mul Cs (map of_mask M') = Cs"
  proof (rule nth_equalityI)
    show "length (map2 fl_mul Cs (map of_mask M')) = length Cs" using lC lM' by simp
  next
    fix p assume "p < length (map2 fl_mul Cs (map of_mask M'))"
    then have p: "p < n" using lC lM' by simp
    have eq: "map2 fl_mul Cs (map of_mask M') ! p = fl_mul (Cs ! p) (of_mask (M' ! p))"
      using p lC lM' by simp
    show "map2 fl_mul Cs (map of_mask M') ! p = Cs ! p"
    proof (cases "M ! p")
      case True
      then show ?thesis using eq sub [OF p] by (simp add: fl_mul_one)
    next
      case False
      then show ?thesis using eq Cout [OF p] by (simp add: fl_mul_mask_again)
    qed
  qed
  then have "nd_mul_mask cleaned_img m' = cleaned_img"
    by (simp add: nd_mul_mask_def Cs_def M'_def)
  then have first: "Tailcut_clean_image cleaned_img high_threshold low_threshold = Inr cleaned_img"
    using m' by (simp add: Tailcut_clean_image_def)
  have second: "Tailcut_final_mask cleaned_img high_threshold low_threshold
      = Tailcut_final_mask img high_threshold low_threshold"
    if pos: "\<not> fl_ge (Fin 0) low_threshold"
  proof -
    have "M' = M"
    proof (rule nth_equalityI)
      show "length M' = length M" using lM lM' by simp
    next
      fix p assume "p < length M'"
      then have p: "p < n" using lM' by simp
      show "M' ! p = M ! p"
      proof (cases "M ! p")
        case True
        then show ?thesis using sub [OF p] by simp
      next
        case False
        then have "\<not> fl_ge (Cs ! p) low_threshold"
          using Cout [OF p] fl_ge_masked_out [OF pos] by simp
        then show ?thesis using False M'p [OF p] by simp
      qed
    qed
    moreover have "shape m' = shape m" using md md' sC by simp
    ultimately have "m' = m" by (simp add: M_def M'_def)
    then show ?thesis using m m' by simp
  qed
  from first second show ?thesis by blast
qed

theorem tailcut_idempotent_witness:
  "Tailcut_clean_image \<lparr>shape = [1, 2], elems = [Fin 10, Fin 0]\<rparr> (Fin 10) (Fin 5)
     = Inr \<lparr>shape = [1, 2], elems = [Fin 10, Fin 0]\<rparr>
   \<and> Tailcut_final_mask \<lparr>shape = [1, 2], elems = [Fin 10, Fin 0]\<rparr> (Fin 10) (Fin 5)
     = Tailcut_final_mask \<lparr>shape = [1, 2], elems = [Fin 10, Fin 3]\<rparr> (Fin 10) (Fin 5)"
proof -
  have "wf_ndarray \<lparr>shape = [1, 2], elems = [Fin 10, Fin 3]\<rparr>"
    by (simp add: wf_ndarray_def)
  moreover have "Tailcut_clean_image \<lparr>shape = [1, 2], elems = [Fin 10, Fin 3]\<rparr> (Fin 10) (Fin 5)
     = Inr \<lparr>shape = [1, 2], elems = [Fin 10, Fin 0]\<rparr>"
    by (simp add: Tailcut_clean_image_def Tailcut_final_mask_def dilate_def ior_from_next_def
        ior_from_prev_def nd_and_def nd_ge_def nd_mul_mask_def of_mask_def Let_def)
  moreover have "\<not> fl_ge (Fin 0) (Fin 5)" by simp
  ultimately show ?thesis
    using tailcut_idempotent
      [of "\<lparr>shape = [1, 2], elems = [Fin 10, Fin 3]\<rparr>" "Fin 10" "Fin 5"
          "\<lparr>shape = [1, 2], elems = [Fin 10, Fin 0]\<rparr>"]
    by blast
qed

text \<open>
  Claim C7: with \<open>low_threshold > high_threshold\<close>, \<^verbatim>\<open>Tailcut.clean_image\<close> returns
  \<^verbatim>\<open>image * (image >= low_threshold)\<close>: the low mask lies inside the high mask and its
  dilation, so the final mask is the low mask.
\<close>

theorem tailcut_low_above_high:
  assumes "2 \<le> ndim img" and "fl_lt high_threshold low_threshold"
  shows "Tailcut_clean_image img high_threshold low_threshold
           = Inr (nd_mul_mask img (nd_ge img low_threshold))"
proof -
  from assms(1) obtain m where m: "Tailcut_final_mask img high_threshold low_threshold = Inr m"
    using Tailcut_final_mask_total [of img high_threshold low_threshold] by (auto simp: ndim_def)
  from m obtain d where d: "dilate (nd_ge img high_threshold) = Inr d"
    and md: "m = \<lparr>shape = shape img,
                  elems = map2 (\<and>) (elems d) (map (\<lambda>x. fl_ge x low_threshold) (elems img))\<rparr>"
    and len: "length (elems d) = length (elems img)"
    and rank: "2 \<le> length (shape img)"
    by (rule Tailcut_final_mask_Inr)
  have "map2 (\<and>) (elems d) (map (\<lambda>x. fl_ge x low_threshold) (elems img))
          = map (\<lambda>x. fl_ge x low_threshold) (elems img)"
  proof (rule and_absorb)
    show "length (elems d) = length (map (\<lambda>x. fl_ge x low_threshold) (elems img))"
      using len by simp
  next
    fix p assume p: "p < length (map (\<lambda>x. fl_ge x low_threshold) (elems img))"
      and "map (\<lambda>x. fl_ge x low_threshold) (elems img) ! p"
    then have "fl_ge (elems img ! p) high_threshold"
      using fl_ge_weaken [OF assms(2)] by simp
    then show "elems d ! p" using p dilate_extensive [OF d, of p] by (simp add: nd_ge_def)
  qed
  then have "m = nd_ge img low_threshold" using md by (simp add: nd_ge_def)
  then show ?thesis using m by (simp add: Tailcut_clean_image_def)
qed

theorem tailcut_low_above_high_witness:
  "Tailcut_clean_image \<lparr>shape = [1, 3], elems = [Fin 7, Fin 3, Fin 1]\<rparr> (Fin 2) (Fin 5)
     = Inr \<lparr>shape = [1, 3], elems = [Fin 7, Fin 0, Fin 0]\<rparr>"
  using tailcut_low_above_high
    [of "\<lparr>shape = [1, 3], elems = [Fin 7, Fin 3, Fin 1]\<rparr>" "Fin 2" "Fin 5"]
  by (simp add: ndim_def nd_mul_mask_def nd_ge_def of_mask_def)

text \<open>
  Claim C10, as stated, fails: on a one-dimensional array the two-axis slices of the
  dilation raise IndexError.
\<close>

theorem tailcut_one_dimension_raises:
  "Tailcut_clean_image \<lparr>shape = [3], elems = [Fin 1, Fin 20, Fin 3]\<rparr> (Fin 10) (Fin 5)
     = Inl IndexError"
  by (simp add: Tailcut_clean_image_def Tailcut_final_mask_def dilate_def nd_ge_def Let_def)

text \<open>
  Claim C10, amended: \<^verbatim>\<open>Tailcut.clean_image\<close> validates no dimensionality itself and
  returns normally exactly on the arrays with at least two dimensions, for any threshold
  pair, with an output of the shape (and size) of the input; on an array with fewer
  than two dimensions it raises IndexError.
\<close>

theorem tailcut_returns_iff_two_axes:
  "((\<exists>cleaned_img. Tailcut_clean_image img high_threshold low_threshold = Inr cleaned_img
        \<and> shape cleaned_img = shape img
        \<and> length (elems cleaned_img) = length (elems img)) \<longleftrightarrow> 2 \<le> ndim img)
   \<and> (Tailcut_clean_image img high_threshold low_threshold = Inl IndexError \<longleftrightarrow> ndim img < 2)"
proof (cases "2 \<le> ndim img")
  case True
  then obtain m where m: "Tailcut_final_mask img high_threshold low_threshold = Inr m"
    using Tailcut_final_mask_total [of img high_threshold low_threshold] by (auto simp: ndim_def)
  from m obtain d where d: "dilate (nd_ge img high_threshold) = Inr d"
    and md: "m = \<lparr>shape = shape img,
           elems = map2 (\<and>) (elems d) (map (\<lambda>x. fl_ge x low_threshold) (elems img))\<rparr>"
    and len: "length (elems d) = length (elems img)"
    and rank: "2 \<le> length (shape img)"
    by (rule Tailcut_final_mask_Inr)
  have "Tailcut_clean_image img high_threshold low_threshold = Inr (nd_mul_mask img m)"
    using m by (simp add: Tailcut_clean_image_def)
  moreover have "shape (nd_mul_mask img m) = shape img" by (simp add: nd_mul_mask_def)
  moreover have "length (elems (nd_mul_mask img m)) = length (elems img)"
    using md len by (simp add: nd_mul_mask_def)
  ultimately show ?thesis using True by auto
next
  case False
  then have "Tailcut_final_mask img high_threshold low_threshold = Inl IndexError"
    using Tailcut_final_mask_rank [of img] by (simp add: ndim_def)
  then have "Tailcut_clean_image img high_threshold low_threshold = Inl IndexError"
    by (simp add: Tailcut_clean_image_def)
  then show ?thesis using False by auto
qed

theorem tailcut_returns_iff_two_axes_witness:
  "\<exists>cleaned_img.
     Tailcut_clean_image \<lparr>shape = [1, 2, 2], elems = [Fin 1, Fin 20, Fin 7, Fin 3]\<rparr>
       (Fin 10) (Fin 5) = Inr cleaned_img
     \<and> shape cleaned_img = [1, 2, 2] \<and> length (elems cleaned_img) = 4"
  using tailcut_returns_iff_two_axes
    [of "\<lparr>shape = [1, 2, 2], elems = [Fin 1, Fin 20, Fin 7, Fin 3]\<rparr>" "Fin 10" "Fin 5"]
  by (auto simp: ndim_def)

section \<open>Auxiliary facts about the wavelet pipeline\<close>

subsection \<open>Shapes\<close>









text \<open>The definitions of the pipeline, for evaluating it on concrete inputs.\<close>

lemmas wt_defs = WaveletTransform_clean_image_def wt_prepare_def wt_exchange_def wt_finish_def
     inject_noise_def apply_offset_def change_scale_def invert_scale_def invert_offset_def correction_step_def kill_step_def floor_below_one_def
     nd_map_def ndim_def images_save_def images_load_def os_remove_def os_system_def set_nan_where_def Let_def
     apply_correction_offset_def nanmin_def fl_sub_def fl_min_def assign_masked_def count_nonzero_def

subsection \<open>Errors and files\<close>

lemma wt_prepare_error: "wt_prepare ps m img = Inl e \<Longrightarrow> e = ValueError"
  by (auto simp: wt_prepare_def inject_noise_def assign_masked_def Let_def
      split: sum.splits option.splits if_splits)

lemma wt_finish_error:
  "wt_finish ev ps m g = Inl e \<Longrightarrow> e = WrongDimensionError \<or> e = IndexError \<or> e = ValueError"
  by (auto simp: wt_finish_def set_nan_where_def correction_step_def apply_correction_offset_def
      nanmin_def split: sum.splits option.splits if_splits list.splits)

lemma wt_exchange_Inr:
  assumes "inp \<noteq> outp" and "fst (wt_exchange ev inp outp x files) = Inr g"
  shows "snd (wt_exchange ev inp outp x files) inp = None
       \<and> snd (wt_exchange ev inp outp x files) outp = None"
  using assms
  by (auto simp: wt_exchange_def images_save_def images_load_def os_remove_def os_system_def Let_def
      split: option.splits sum.splits if_splits)

lemma wt_exchange_Inl:
  assumes "inp \<noteq> outp" and "fst (wt_exchange ev inp outp x files) = Inl e"
  shows "(e = SaveFailed \<and> snd (wt_exchange ev inp outp x files) = files)
       \<or> (e = LoadFailed \<and> snd (wt_exchange ev inp outp x files) inp = Some x)"
  using assms
  by (auto simp: wt_exchange_def images_save_def images_load_def os_remove_def os_system_def Let_def
      split: option.splits sum.splits if_splits)

subsection \<open>The minimum taken by the correction offset\<close>

lemma finite_values_iff: "a \<in> set (finite_values xs) \<longleftrightarrow> Fin a \<in> set xs"
  by (induction xs rule: finite_values.induct) auto

lemma fold_fl_min_in: "fold fl_min ys y \<in> set (y # ys)"
  by (induction ys arbitrary: y) (auto simp: fl_min_def)

lemma fl_min_lower:
  "\<not> isnan y \<Longrightarrow> \<not> isnan z \<Longrightarrow> \<not> fl_lt y (fl_min z y) \<and> \<not> fl_lt z (fl_min z y)"
  by (cases y; cases z) (auto simp: fl_min_def)

lemma fl_not_lt_trans:
  "\<not> isnan a \<Longrightarrow> \<not> fl_lt x a \<Longrightarrow> \<not> fl_lt a r \<Longrightarrow> \<not> fl_lt x r"
  by (cases a; cases x; cases r) auto

lemma fl_min_not_nan: "\<not> isnan y \<Longrightarrow> \<not> isnan z \<Longrightarrow> \<not> isnan (fl_min z y)"
  by (simp add: fl_min_def)

lemma fold_fl_min_lower:
  assumes "\<not> isnan y" and "\<forall>z\<in>set ys. \<not> isnan z" and "x \<in> set (y # ys)"
  shows "\<not> fl_lt x (fold fl_min ys y)"
  using assms
proof (induction ys arbitrary: y x)
  case Nil
  then show ?case by (cases y) auto
next
  case (Cons z zs)
  have nz: "\<not> isnan z" using Cons.prems(2) by simp
  have nm: "\<not> isnan (fl_min z y)" using Cons.prems(1) nz by (rule fl_min_not_nan)
  have rest: "\<forall>u\<in>set zs. \<not> isnan u" using Cons.prems(2) by simp
  have low: "\<not> fl_lt (fl_min z y) (fold fl_min zs (fl_min z y))"
    using Cons.IH [OF nm rest, of "fl_min z y"] by simp
  show ?case
  proof (cases "x \<in> set zs")
    case True
    then show ?thesis using Cons.IH [OF nm rest, of x] by simp
  next
    case False
    then have "x = y \<or> x = z" using Cons.prems(3) by auto
    then have "\<not> fl_lt x (fl_min z y)" using fl_min_lower [OF Cons.prems(1) nz] by auto
    then have "\<not> fl_lt x (fold fl_min zs (fl_min z y))"
      using nm low fl_not_lt_trans by blast
    then show ?thesis by simp
  qed
qed

text \<open>The minimum of a grid that has a finite value and no minus infinity is its least
  finite value.\<close>

lemma nanmin_finite:
  assumes "finite_values (elems g) \<noteq> []" and "NInf \<notin> set (elems g)"
  shows "\<exists>\<mu>. nanmin g = Inr (Fin \<mu>) \<and> Fin \<mu> \<in> set (elems g)
    \<and> (\<forall>b. Fin b \<in> set (elems g) \<longrightarrow> \<mu> \<le> b)"
proof -
  from assms(1) obtain a where a: "Fin a \<in> set (elems g)"
    using finite_values_iff [of _ "elems g"] by (cases "finite_values (elems g)") auto
  then have ne: "elems g \<noteq> []" by auto
  have "Fin a \<in> set (filter (\<lambda>x. \<not> isnan x) (elems g))" using a by simp
  then obtain y ys where f: "filter (\<lambda>x. \<not> isnan x) (elems g) = y # ys"
    by (cases "filter (\<lambda>x. \<not> isnan x) (elems g)") auto
  define m where "m = fold fl_min ys y"
  have nm: "nanmin g = Inr m" using ne f by (simp add: nanmin_def m_def)
  have sub: "set (y # ys) = {x \<in> set (elems g). \<not> isnan x}"
    using f [symmetric] by auto
  have "m \<in> set (y # ys)" unfolding m_def by (rule fold_fl_min_in)
  then have min: "m \<in> set (elems g)" "\<not> isnan m" using sub by auto
  have ny: "\<not> isnan y" and nys: "\<forall>z\<in>set ys. \<not> isnan z" using sub by auto
  have low: "\<not> fl_lt x m" if "x \<in> set (elems g)" "\<not> isnan x" for x
    unfolding m_def using that sub by (intro fold_fl_min_lower [OF ny nys]) auto
  have "\<not> fl_lt (Fin a) m" using low [of "Fin a"] a by simp
  then obtain \<mu> where mu: "m = Fin \<mu>" using min assms(2) by (cases m) auto
  have "\<mu> \<le> b" if "Fin b \<in> set (elems g)" for b
    using low [of "Fin b"] that mu by simp
  then show ?thesis using nm mu min by blast
qed

subsection \<open>Noise injection and the round trip through the log scale\<close>



lemma length_put_masked: "length (put_masked ms xs vs) = length xs"
  by (induction ms xs vs rule: put_masked.induct) (auto split: list.splits)






subsection \<open>NaN positions through the steps after the external program\<close>






















text \<open>A two-dimensional grid of another shape, read back from the external program,
  makes the call raise.\<close>

lemma external_shape_mismatch_raises:
  assumes "ndim img = 2"
    and "wt_prepare ps (nd_map isnan img) img = Inr x"
    and "fst (wt_exchange ev input_file_path mr_output_file_path x files) = Inr cleaned_img"
    and "ndim cleaned_img = 2" and "shape cleaned_img \<noteq> shape img"
  shows "fst (WaveletTransform_clean_image ev ps input_file_path mr_output_file_path files img)
           = Inl IndexError"
proof -
  have "wt_finish ev ps (nd_map isnan img) cleaned_img = Inl IndexError"
    using assms(4,5) by (auto simp: wt_finish_def set_nan_where_def nd_map_def)
  then show ?thesis
    using assms(1,2,3)
    by (auto simp: WaveletTransform_clean_image_def split: prod.splits)
qed

section \<open>WaveletTransform and shape: the claims\<close>






text \<open>
  Claim C3, as stated, fails: when the external program writes no output file, reading
  it raises, and the input file is still on disk when the call ends.
\<close>

theorem input_file_left_when_read_fails:
  "fst (WaveletTransform_clean_image
        \<lparr>save_fails = False, mr_filter = (\<lambda>g. None), scipy_kill_isolated_pixels = (\<lambda>g. g)\<rparr>
        \<lparr>suppress_last_scale = False, kill_isolated_pixels = False,
         offset_after_calibration = None, correction_offset = False,
         input_image_scale = ''linear'', noise_distribution = None\<rparr>
        ''.tmp_in.fits'' ''.tmp_out.fits'' Map.empty
        \<lparr>shape = [1, 2], elems = [Fin 20, Fin 3]\<rparr>) = Inl LoadFailed
   \<and> snd (WaveletTransform_clean_image
        \<lparr>save_fails = False, mr_filter = (\<lambda>g. None), scipy_kill_isolated_pixels = (\<lambda>g. g)\<rparr>
        \<lparr>suppress_last_scale = False, kill_isolated_pixels = False,
         offset_after_calibration = None, correction_offset = False,
         input_image_scale = ''linear'', noise_distribution = None\<rparr>
        ''.tmp_in.fits'' ''.tmp_out.fits'' Map.empty
        \<lparr>shape = [1, 2], elems = [Fin 20, Fin 3]\<rparr>) ''.tmp_in.fits''
      = Some \<lparr>shape = [1, 2], elems = [Fin 20, Fin 3]\<rparr>"
  by (simp add: wt_defs)

text \<open>
  Claim C3, amended: with two distinct, fresh temporary paths, after a call that did
  not fail while writing the input file, the input file is gone unless reading the
  output file raised; and whenever reading did not raise, the output file is gone too,
  whether the call then returns or raises at a later step. The two files are removed
  right after the output has been read, and only there.
\<close>

theorem temporary_files_after_call:
  assumes distinct: "input_file_path \<noteq> mr_output_file_path"
    and fresh: "files input_file_path = None" "files mr_output_file_path = None"
    and nosave: "fst (WaveletTransform_clean_image ev ps input_file_path mr_output_file_path files img)
           \<noteq> Inl SaveFailed"
  shows "(snd (WaveletTransform_clean_image ev ps input_file_path mr_output_file_path files img)
            input_file_path = None
          \<longleftrightarrow> fst (WaveletTransform_clean_image ev ps input_file_path mr_output_file_path files img)
                \<noteq> Inl LoadFailed)
       \<and> (fst (WaveletTransform_clean_image ev ps input_file_path mr_output_file_path files img)
             \<noteq> Inl LoadFailed
          \<longrightarrow> snd (WaveletTransform_clean_image ev ps input_file_path mr_output_file_path files img)
                mr_output_file_path = None)"
proof (cases "ndim img \<noteq> 2")
  case True
  then show ?thesis using fresh by (simp add: WaveletTransform_clean_image_def)
next
  case rank: False
  show ?thesis
  proof (cases "wt_prepare ps (nd_map isnan img) img")
    case (Inl e)
    then have "e = ValueError" by (rule wt_prepare_error)
    then show ?thesis using rank Inl fresh by (simp add: WaveletTransform_clean_image_def)
  next
    case (Inr x)
    show ?thesis
    proof (cases "fst (wt_exchange ev input_file_path mr_output_file_path x files)")
      case e: (Inl e)
      have R: "WaveletTransform_clean_image ev ps input_file_path mr_output_file_path files img
        = (Inl e, snd (wt_exchange ev input_file_path mr_output_file_path x files))"
        using rank Inr e by (auto simp: WaveletTransform_clean_image_def split: prod.splits)
      then have "e \<noteq> SaveFailed" using nosave by auto
      then have "e = LoadFailed
        \<and> snd (wt_exchange ev input_file_path mr_output_file_path x files) input_file_path = Some x"
        using wt_exchange_Inl [OF distinct e] by blast
      then show ?thesis using R by simp
    next
      case g: (Inr g)
      have R: "WaveletTransform_clean_image ev ps input_file_path mr_output_file_path files img
        = (wt_finish ev ps (nd_map isnan img) g,
           snd (wt_exchange ev input_file_path mr_output_file_path x files))"
        using rank Inr g by (auto simp: WaveletTransform_clean_image_def split: prod.splits)
      have "wt_finish ev ps (nd_map isnan img) g \<noteq> Inl LoadFailed"
        using wt_finish_error [of ev ps "nd_map isnan img" g LoadFailed] by auto
      then show ?thesis using R wt_exchange_Inr [OF distinct g] by simp
    qed
  qed
qed

theorem temporary_files_after_call_witness:
  "fst (WaveletTransform_clean_image
        \<lparr>save_fails = False, mr_filter = Some, scipy_kill_isolated_pixels = (\<lambda>g. g)\<rparr>
        \<lparr>suppress_last_scale = False, kill_isolated_pixels = False,
         offset_after_calibration = None, correction_offset = False,
         input_image_scale = ''linear'', noise_distribution = None\<rparr>
        ''.tmp_in.fits'' ''.tmp_out.fits'' Map.empty
        \<lparr>shape = [1, 2], elems = [Fin 20, Fin 3]\<rparr>)
      = Inr \<lparr>shape = [1, 2], elems = [Fin 20, Fin 3]\<rparr>
   \<and> snd (WaveletTransform_clean_image
        \<lparr>save_fails = False, mr_filter = Some, scipy_kill_isolated_pixels = (\<lambda>g. g)\<rparr>
        \<lparr>suppress_last_scale = False, kill_isolated_pixels = False,
         offset_after_calibration = None, correction_offset = False,
         input_image_scale = ''linear'', noise_distribution = None\<rparr>
        ''.tmp_in.fits'' ''.tmp_out.fits'' Map.empty
        \<lparr>shape = [1, 2], elems = [Fin 20, Fin 3]\<rparr>) ''.tmp_in.fits'' = None
   \<and> snd (WaveletTransform_clean_image
        \<lparr>save_fails = False, mr_filter = Some, scipy_kill_isolated_pixels = (\<lambda>g. g)\<rparr>
        \<lparr>suppress_last_scale = False, kill_isolated_pixels = False,
         offset_after_calibration = None, correction_offset = False,
         input_image_scale = ''linear'', noise_distribution = None\<rparr>
        ''.tmp_in.fits'' ''.tmp_out.fits'' Map.empty
        \<lparr>shape = [1, 2], elems = [Fin 20, Fin 3]\<rparr>) ''.tmp_out.fits'' = None"
proof -
  have r: "fst (WaveletTransform_clean_image
        \<lparr>save_fails = False, mr_filter = Some, scipy_kill_isolated_pixels = (\<lambda>g. g)\<rparr>
        \<lparr>suppress_last_scale = False, kill_isolated_pixels = False,
         offset_after_calibration = None, correction_offset = False,
         input_image_scale = ''linear'', noise_distribution = None\<rparr>
        ''.tmp_in.fits'' ''.tmp_out.fits'' Map.empty
        \<lparr>shape = [1, 2], elems = [Fin 20, Fin 3]\<rparr>)
      = Inr \<lparr>shape = [1, 2], elems = [Fin 20, Fin 3]\<rparr>"
    by (simp add: wt_defs)
  have d: "''.tmp_in.fits'' \<noteq> ''.tmp_out.fits''" by simp
  show ?thesis
    using r temporary_files_after_call
      [OF d, of Map.empty
        "\<lparr>save_fails = False, mr_filter = Some, scipy_kill_isolated_pixels = (\<lambda>g. g)\<rparr>"
        "\<lparr>suppress_last_scale = False, kill_isolated_pixels = False,
         offset_after_calibration = None, correction_offset = False,
         input_image_scale = ''linear'', noise_distribution = None\<rparr>"
        "\<lparr>shape = [1, 2], elems = [Fin 20, Fin 3]\<rparr>"]
    by simp
qed




text \<open>
  Claim C9, as stated, fails on a grid that holds minus infinity: \<^verbatim>\<open>np.nanmin\<close> skips
  NaN only, the minimum is minus infinity, and subtracting it leaves no finite value.
  Such a grid reaches the step on the linear scale.
\<close>

theorem correction_offset_minus_infinity:
  "finite_values (elems \<lparr>shape = [1, 2], elems = [NInf, Fin 1]\<rparr>) = [1]
   \<and> apply_correction_offset \<lparr>shape = [1, 2], elems = [NInf, Fin 1]\<rparr>
       = Inr \<lparr>shape = [1, 2], elems = [NaN, PInf]\<rparr>
   \<and> finite_values (elems \<lparr>shape = [1, 2], elems = [NaN, PInf]\<rparr>) = []
   \<and> fst (WaveletTransform_clean_image
        \<lparr>save_fails = False, mr_filter = Some, scipy_kill_isolated_pixels = (\<lambda>g. g)\<rparr>
        \<lparr>suppress_last_scale = False, kill_isolated_pixels = False,
         offset_after_calibration = None, correction_offset = True,
         input_image_scale = ''linear'', noise_distribution = None\<rparr>
        ''.tmp_in.fits'' ''.tmp_out.fits'' Map.empty
        \<lparr>shape = [1, 2], elems = [NInf, Fin 1]\<rparr>)
       = Inr \<lparr>shape = [1, 2], elems = [NaN, PInf]\<rparr>"
  by (simp add: wt_defs)

text \<open>
  Claim C9, amended: for every grid with at least one finite value and no minus
  infinity, the correction-offset step returns a grid of the same shape whose least
  finite value is exactly 0 and that has no finite value strictly between 0 and 1.
\<close>

theorem correction_offset_floor:
  assumes "finite_values (elems cleaned_img) \<noteq> []" and "NInf \<notin> set (elems cleaned_img)"
  shows "\<exists>r. apply_correction_offset cleaned_img = Inr r
           \<and> shape r = shape cleaned_img
           \<and> Min (set (finite_values (elems r))) = 0
           \<and> (\<forall>a\<in>set (finite_values (elems r)). \<not> (0 < a \<and> a < 1))"
proof -
  from assms obtain \<mu> where nm: "nanmin cleaned_img = Inr (Fin \<mu>)"
    and mu: "Fin \<mu> \<in> set (elems cleaned_img)"
    and low: "\<forall>b. Fin b \<in> set (elems cleaned_img) \<longrightarrow> \<mu> \<le> b"
    using nanmin_finite by blast
  define h where "h = (\<lambda>x. floor_below_one (fl_sub x (Fin \<mu>)))"
  define r where "r = \<lparr>shape = shape cleaned_img, elems = map h (elems cleaned_img)\<rparr>"
  have res: "apply_correction_offset cleaned_img = Inr r"
    using nm by (simp add: apply_correction_offset_def nd_map_def r_def h_def comp_def)
  have hfin: "h (Fin b) = Fin (if b - \<mu> < 1 then 0 else b - \<mu>)" for b
    by (simp add: h_def fl_sub_def floor_below_one_def)
  have hnon: "\<exists>b. x = Fin b" if "h x = Fin a" for x a
    using that by (cases x) (auto simp: h_def fl_sub_def floor_below_one_def split: if_splits)
  have zero: "0 \<in> set (finite_values (elems r))"
  proof -
    have "h (Fin \<mu>) = Fin 0" by (simp add: hfin)
    then have "Fin 0 \<in> set (elems r)" using mu by (force simp: r_def)
    then show ?thesis by (simp add: finite_values_iff)
  qed
  have vals: "a = 0 \<or> 1 \<le> a" if "a \<in> set (finite_values (elems r))" for a
  proof -
    from that have "Fin a \<in> set (elems r)" by (simp add: finite_values_iff)
    then obtain x where x: "x \<in> set (elems cleaned_img)" "h x = Fin a"
      by (auto simp: r_def)
    then obtain b where b: "x = Fin b" using hnon by blast
    then have "a = (if b - \<mu> < 1 then 0 else b - \<mu>)" using x hfin by simp
    then show ?thesis by (auto split: if_splits)
  qed
  have "Min (set (finite_values (elems r))) = 0"
  proof (rule Min_eqI)
    show "finite (set (finite_values (elems r)))" by simp
    show "0 \<in> set (finite_values (elems r))" by (rule zero)
    fix a assume "a \<in> set (finite_values (elems r))"
    then show "0 \<le> a" using vals by fastforce
  qed
  moreover have "\<forall>a\<in>set (finite_values (elems r)). \<not> (0 < a \<and> a < 1)"
    using vals by fastforce
  moreover have "shape r = shape cleaned_img" by (simp add: r_def)
  ultimately show ?thesis using res by blast
qed

theorem correction_offset_floor_witness:
  "apply_correction_offset \<lparr>shape = [2, 2], elems = [Fin 3, NaN, Fin (7 / 2), PInf]\<rparr>
     = Inr \<lparr>shape = [2, 2], elems = [Fin 0, NaN, Fin 0, PInf]\<rparr>
   \<and> Min (set (finite_values [Fin 0, NaN, Fin 0, PInf])) = 0"
proof -
  have r: "apply_correction_offset \<lparr>shape = [2, 2], elems = [Fin 3, NaN, Fin (7 / 2), PInf]\<rparr>
     = Inr \<lparr>shape = [2, 2], elems = [Fin 0, NaN, Fin 0, PInf]\<rparr>"
    by (simp add: apply_correction_offset_def nanmin_def nd_map_def fl_min_def fl_sub_def
        floor_below_one_def)
  show ?thesis
    using r correction_offset_floor
      [of "\<lparr>shape = [2, 2], elems = [Fin 3, NaN, Fin (7 / 2), PInf]\<rparr>"]
    by simp
qed

end
